theory Spec2Isabelle
  imports Main "HOL-Library.Sublist"
begin

section \<open>Data of the external libraries\<close>

text \<open>
  A package object of the resolver library (hawkey). Only the attributes that
  rpmdeplint reads are kept: \<open>nevra\<close> is the text \<open>str(pkg)\<close>, \<open>requires\<close> holds the
  text of each requirement, \<open>files\<close> the declared file paths. Two package objects are
  compared by value.
\<close>

record package =
  nevra :: string
  name :: string
  arch :: string
  evr :: string
  reponame :: string
  requires :: "string list"
  files :: "string list"
  location :: string
  chksum :: "nat \<times> string"

datatype error = KeyError | IOError | AttributeError

section \<open>DependencySet\<close>

text \<open>The value of one key of \<open>_packagedeps\<close>: \<open>dict(dependencies=[], problems=[])\<close>.\<close>

record pkgentry =
  dependencies :: "string list"
  problems :: "string list"

record DependencySet =
  d_packagedeps :: "string \<rightharpoonup> pkgentry"
  d_packages_with_problems :: "string set"
  d_overall_problems :: "string set"
  d_repodeps :: "string \<rightharpoonup> string set"
  d_repo_packages :: "string \<rightharpoonup> string set"
  d_package_repo :: "string \<rightharpoonup> string"

text \<open>\<open>DependencySet.__init__\<close>: every container starts empty.\<close>

definition DependencySet_init :: DependencySet where
  "DependencySet_init =
     \<lparr>d_packagedeps = Map.empty, d_packages_with_problems = {}, d_overall_problems = {},
      d_repodeps = Map.empty, d_repo_packages = Map.empty, d_package_repo = Map.empty\<rparr>"

text \<open>
  Indexing a \<open>defaultdict\<close>: a missing key is first stored with the default value, then
  the stored value is returned. The result is the value and the dictionary after the
  access.
\<close>

definition defaultdict_getitem :: "('k \<rightharpoonup> 'v) \<Rightarrow> 'v \<Rightarrow> 'k \<Rightarrow> 'v \<times> ('k \<rightharpoonup> 'v)" where
  "defaultdict_getitem m dflt k =
     (case m k of None \<Rightarrow> (dflt, m(k \<mapsto> dflt)) | Some v \<Rightarrow> (v, m))"

definition default_entry :: pkgentry where
  "default_entry = \<lparr>dependencies = [], problems = []\<rparr>"

text \<open>
  \<open>add_package\<close>, statement by statement. Each indexed access of a \<open>defaultdict\<close> goes
  through \<open>defaultdict_getitem\<close>; the lists are extended in place and the sets updated.
\<close>

definition add_package ::
  "DependencySet \<Rightarrow> package \<Rightarrow> string \<Rightarrow> package list \<Rightarrow> string list \<Rightarrow> DependencySet" where
  "add_package ds pkg rname deps probs =
     (let nv = nevra pkg;
          (e1, pd1) = defaultdict_getitem (d_packagedeps ds) default_entry nv;
          pd2 = pd1(nv \<mapsto> e1\<lparr>dependencies := dependencies e1 @ map nevra deps\<rparr>);
          (s1, rd1) = defaultdict_getitem (d_repodeps ds) {} rname;
          rd2 = rd1(rname \<mapsto> s1 \<union> set (map reponame deps));
          (s2, rp1) = defaultdict_getitem (d_repo_packages ds) {} rname;
          rp2 = rp1(rname \<mapsto> insert nv s2);
          ds1 = ds\<lparr>d_packagedeps := pd2, d_repodeps := rd2, d_repo_packages := rp2,
                   d_package_repo := (d_package_repo ds)(nv \<mapsto> rname)\<rparr>
      in if length probs \<noteq> 0
         then (let (e2, pd3) = defaultdict_getitem (d_packagedeps ds1) default_entry nv
               in ds1\<lparr>d_packagedeps := pd3(nv \<mapsto> e2\<lparr>problems := problems e2 @ probs\<rparr>),
                      d_packages_with_problems := insert nv (d_packages_with_problems ds1),
                      d_overall_problems := d_overall_problems ds1 \<union> set probs\<rparr>)
         else ds1)"

text \<open>
  The accessors. Each returns its value together with the object after the call, so
  that what a call does to the object can be stated. A Python \<open>list(...)\<close> of a set or
  of dictionary keys has no specified order and is given as the set.
\<close>

definition packages :: "DependencySet \<Rightarrow> string set \<times> DependencySet" where
  "packages ds = (dom (d_packagedeps ds), ds)"

definition overall_problems :: "DependencySet \<Rightarrow> string set \<times> DependencySet" where
  "overall_problems ds = (d_overall_problems ds, ds)"

definition packages_with_problems :: "DependencySet \<Rightarrow> string set \<times> DependencySet" where
  "packages_with_problems ds = (d_packages_with_problems ds, ds)"

definition package_dependencies :: "DependencySet \<Rightarrow> (string \<rightharpoonup> pkgentry) \<times> DependencySet" where
  "package_dependencies ds = (d_packagedeps ds, ds)"

definition repository_dependencies :: "DependencySet \<Rightarrow> (string \<rightharpoonup> string set) \<times> DependencySet" where
  "repository_dependencies ds = (d_repodeps ds, ds)"

text \<open>\<open>_package_repo\<close> is a plain \<open>dict\<close>: a missing key raises \<open>KeyError\<close>.\<close>

definition repository_for_package :: "DependencySet \<Rightarrow> string \<Rightarrow> (error + string) \<times> DependencySet" where
  "repository_for_package ds pkg =
     ((case d_package_repo ds pkg of None \<Rightarrow> Inl KeyError | Some r \<Rightarrow> Inr r), ds)"

definition dependencies_for_repository :: "DependencySet \<Rightarrow> string \<Rightarrow> string set \<times> DependencySet" where
  "dependencies_for_repository ds rname =
     (let (s, rd) = defaultdict_getitem (d_repodeps ds) {} rname
      in (s, ds\<lparr>d_repodeps := rd\<rparr>))"

definition dependencies_for_package :: "DependencySet \<Rightarrow> string \<Rightarrow> string list \<times> DependencySet" where
  "dependencies_for_package ds nv =
     (let (e, pd) = defaultdict_getitem (d_packagedeps ds) default_entry nv
      in (dependencies e, ds\<lparr>d_packagedeps := pd\<rparr>))"

section \<open>The libraries DependencyAnalyzer calls\<close>

text \<open>
  The keyword arguments of \<open>hawkey.Query.filter\<close> that the analyses use. A query is the
  list of the keywords given to it, in the order of the source text.
\<close>

datatype filter_kw =
    Latest_per_arch
  | Reponame_neq string
  | Obsoletes "package list"
  | Provides string
  | File string
  | Name string
  | Arch string
  | Evr_gt string

text \<open>What a \<open>hawkey.Goal\<close> answers once \<open>run()\<close> has been called.\<close>

record goal =
  g_run :: bool
  g_list_installs :: "package list"
  g_list_upgrades :: "package list"
  g_list_erasures :: "package list"
  g_problems :: "string list"

record Repo =
  repo_name :: string
  metadata_path :: string

text \<open>
  The resolver and the RPM header reader are not part of rpmdeplint; they are
  parameters of the model:
  \<^item> \<open>query kws\<close>: the packages that iterating \<open>hawkey.Query(sack).filter(...)\<close> yields;
  \<^item> \<open>run_goal ps\<close>: the goal after \<open>install(p)\<close> for each \<open>p\<close> of \<open>ps\<close> and \<open>run()\<close>;
  \<^item> \<open>hdr_files path\<close>: \<open>rpm.files\<close> of the header read from \<open>path\<close>, by file name, or
    \<open>None\<close> when the file cannot be read;
  \<^item> \<open>matches\<close>, \<open>color\<close>: the comparison and the colour of two file entries;
  \<^item> \<open>chksum_name\<close>, \<open>hexlify\<close>: the two conversions of a checksum.
\<close>

record 'f libs =
  query :: "filter_kw list \<Rightarrow> package list"
  run_goal :: "package list \<Rightarrow> goal"
  hdr_files :: "string \<Rightarrow> (string \<rightharpoonup> 'f) option"
  matches :: "'f \<Rightarrow> 'f \<Rightarrow> bool"
  color :: "'f \<Rightarrow> nat"
  chksum_name :: "nat \<Rightarrow> string"
  hexlify :: "string \<Rightarrow> string"

section \<open>DependencyAnalyzer\<close>

record DependencyAnalyzer =
  self_repos_by_name :: "string \<rightharpoonup> Repo"
  self_packages :: "package list"

record results =
  r_installs :: "package list"
  r_upgrades :: "package list"
  r_erasures :: "package list"
  r_problems :: "string list"

text \<open>
  \<open>download_package\<close>. A package under test is read where it lies. For any other
  package the repository is looked up by name (\<open>KeyError\<close> when it is missing) and the
  two checksum arguments are computed; the call \<open>repo.download_package(...)\<close> that
  follows then raises \<open>AttributeError\<close>, because the class \<open>Repo\<close> of repodata.py, of
  which the repositories are instances, defines no method of that name.
\<close>

definition download_package :: "'f libs \<Rightarrow> DependencyAnalyzer \<Rightarrow> package \<Rightarrow> error + string" where
  "download_package x self pkg =
     (if pkg \<in> set (self_packages self) then Inr (location pkg)
      else (case self_repos_by_name self (reponame pkg) of
              None \<Rightarrow> Inl KeyError
            | Some repo \<Rightarrow>
                (let checksum_type = chksum_name x (fst (chksum pkg));
                     checksum = hexlify x (snd (chksum pkg))
                 in Inl AttributeError)))"

definition try_to_install :: "'f libs \<Rightarrow> package list \<Rightarrow> bool \<times> results" where
  "try_to_install x pkgs =
     (let g = run_goal x pkgs;
          res = \<lparr>r_installs = [], r_upgrades = [], r_erasures = [], r_problems = []\<rparr>;
          install_succeeded = g_run g
      in if install_succeeded
         then (install_succeeded,
               res\<lparr>r_installs := g_list_installs g, r_upgrades := g_list_upgrades g,
                   r_erasures := g_list_erasures g\<rparr>)
         else (install_succeeded, res\<lparr>r_problems := g_problems g\<rparr>))"

text \<open>The loop of \<open>try_to_install_all\<close>, with the DependencySet as the loop state.\<close>

fun install_loop :: "'f libs \<Rightarrow> package list \<Rightarrow> DependencySet \<Rightarrow> DependencySet" where
  "install_loop x [] ds = ds"
| "install_loop x (pkg # rest) ds =
     (let (ok, res) = try_to_install x [pkg]
      in install_loop x rest (add_package ds pkg (reponame pkg) (r_installs res) (r_problems res)))"

text \<open>\<open>len(ds.overall_problems) == 0\<close>: the set of problems is finite, its list is empty
  exactly when the set is.\<close>

definition try_to_install_all :: "'f libs \<Rightarrow> DependencyAnalyzer \<Rightarrow> bool \<times> DependencySet" where
  "try_to_install_all x self =
     (let ds = install_loop x (self_packages self) DependencySet_init;
          (probs, ds') = overall_problems ds;
          ok = (probs = {})
      in (ok, ds'))"

subsection \<open>find_repoclosure_problems\<close>

text \<open>
  The two loops that collect the obsoleted packages of a query \<open>q\<close>: a package of the
  query is obsoleted when \<open>q.filter(obsoletes=[pkg])\<close> is not empty.
\<close>

fun obsoleted_loop :: "'f libs \<Rightarrow> filter_kw list \<Rightarrow> package list \<Rightarrow> package set \<Rightarrow> package set" where
  "obsoleted_loop x q [] obsoleted = obsoleted"
| "obsoleted_loop x q (pkg # rest) obsoleted =
     obsoleted_loop x q rest
       (if query x (q @ [Obsoletes [pkg]]) \<noteq> [] then insert pkg obsoleted else obsoleted)"

definition available_q :: "filter_kw list" where
  "available_q = [Latest_per_arch]"

definition available_from_repos_q :: "filter_kw list" where
  "available_from_repos_q = [Reponame_neq ''@commandline'', Latest_per_arch]"

definition problem_msg :: "string \<Rightarrow> package \<Rightarrow> string" where
  "problem_msg req pkg = ''nothing provides '' @ req @ '' needed by '' @ nevra pkg"

text \<open>The loop over \<open>pkg.requires\<close>; \<open>probs\<close> (\<open>problems\<close> in the source) is the list built so far.\<close>

fun requires_loop ::
  "'f libs \<Rightarrow> package set \<Rightarrow> package set \<Rightarrow> package \<Rightarrow> string list \<Rightarrow> string list \<Rightarrow> string list" where
  "requires_loop x obsoleted obsoleted_from_repos pkg [] probs = probs"
| "requires_loop x obsoleted obsoleted_from_repos pkg (req # rest) probs =
     (if prefix ''rpmlib('' req
      then requires_loop x obsoleted obsoleted_from_repos pkg rest probs
      else (let providers = [p \<leftarrow> query x (available_q @ [Provides req]). p \<notin> obsoleted]
            in if providers = []
               then (let repo_providers =
                           [p \<leftarrow> query x (available_from_repos_q @ [Provides req]).
                              p \<notin> obsoleted_from_repos]
                     in if repo_providers = []
                        then requires_loop x obsoleted obsoleted_from_repos pkg rest probs
                        else requires_loop x obsoleted obsoleted_from_repos pkg rest
                               (probs @ [problem_msg req pkg]))
               else requires_loop x obsoleted obsoleted_from_repos pkg rest probs))"

fun closure_loop ::
  "'f libs \<Rightarrow> DependencyAnalyzer \<Rightarrow> package set \<Rightarrow> package set \<Rightarrow> package list \<Rightarrow> string list \<Rightarrow> string list" where
  "closure_loop x self obsoleted obsoleted_from_repos [] probs = probs"
| "closure_loop x self obsoleted obsoleted_from_repos (pkg # rest) probs =
     (if pkg \<in> set (self_packages self)
      then closure_loop x self obsoleted obsoleted_from_repos rest probs
      else if pkg \<in> obsoleted
      then closure_loop x self obsoleted obsoleted_from_repos rest probs
      else closure_loop x self obsoleted obsoleted_from_repos rest
             (requires_loop x obsoleted obsoleted_from_repos pkg (requires pkg) probs))"

definition find_repoclosure_problems :: "'f libs \<Rightarrow> DependencyAnalyzer \<Rightarrow> string list" where
  "find_repoclosure_problems x self =
     (let available = query x available_q;
          available_from_repos = query x available_from_repos_q;
          obsoleted = obsoleted_loop x available_q available {};
          obsoleted_from_repos = obsoleted_loop x available_from_repos_q available_from_repos {}
      in closure_loop x self obsoleted obsoleted_from_repos available [])"

subsection \<open>find_conflicts\<close>

text \<open>\<open>g.problems and 'conflicts' in g.problems[0]\<close>: the first problem is read only
  when the list is not empty.\<close>

definition packages_have_explicit_conflict :: "'f libs \<Rightarrow> package \<Rightarrow> package \<Rightarrow> bool" where
  "packages_have_explicit_conflict x left right =
     (let g = run_goal x [left, right]
      in case g_problems g of
           [] \<Rightarrow> False
         | p0 # _ \<Rightarrow> if sublist ''conflicts'' p0 then True else False)"

text \<open>
  The first half of \<open>_file_conflict_is_permitted\<close>: both headers are read and the entry
  of \<open>filename\<close> is looked up in each; a file that cannot be read, a failing
  \<open>download_package\<close> and a name missing from a header each raise.
\<close>

definition file_entries ::
  "'f libs \<Rightarrow> DependencyAnalyzer \<Rightarrow> package \<Rightarrow> package \<Rightarrow> string \<Rightarrow> error + ('f \<times> 'f)" where
  "file_entries x self left right filename =
     (case hdr_files x (location left) of
        None \<Rightarrow> Inl IOError
      | Some left_files \<Rightarrow>
          (case download_package x self right of
             Inl e \<Rightarrow> Inl e
           | Inr path \<Rightarrow>
               (case hdr_files x path of
                  None \<Rightarrow> Inl IOError
                | Some right_files \<Rightarrow>
                    (case left_files filename of
                       None \<Rightarrow> Inl KeyError
                     | Some lf \<Rightarrow>
                         (case right_files filename of
                            None \<Rightarrow> Inl KeyError
                          | Some rf \<Rightarrow> Inr (lf, rf))))))"

definition file_conflict_is_permitted ::
  "'f libs \<Rightarrow> DependencyAnalyzer \<Rightarrow> package \<Rightarrow> package \<Rightarrow> string \<Rightarrow> error + bool" where
  "file_conflict_is_permitted x self left right filename =
     (case file_entries x self left right filename of
        Inl e \<Rightarrow> Inl e
      | Inr (lf, rf) \<Rightarrow>
          if matches x lf rf then Inr True
          else if color x lf \<noteq> color x rf then Inr True
          else Inr False)"

definition conflict_msg :: "package \<Rightarrow> string \<Rightarrow> package \<Rightarrow> string" where
  "conflict_msg pkg filename conflicting =
     nevra pkg @ '' provides '' @ filename @ '' which is also provided by '' @ nevra conflicting"

fun conflicting_loop ::
  "'f libs \<Rightarrow> DependencyAnalyzer \<Rightarrow> package \<Rightarrow> string \<Rightarrow> package list \<Rightarrow> string list
     \<Rightarrow> error + string list" where
  "conflicting_loop x self pkg filename [] probs = Inr probs"
| "conflicting_loop x self pkg filename (conflicting # rest) probs =
     (if conflicting = pkg then conflicting_loop x self pkg filename rest probs
      else if packages_have_explicit_conflict x pkg conflicting
      then conflicting_loop x self pkg filename rest probs
      else (case file_conflict_is_permitted x self pkg conflicting filename of
              Inl e \<Rightarrow> Inl e
            | Inr permitted \<Rightarrow>
                if \<not> permitted
                then conflicting_loop x self pkg filename rest
                       (probs @ [conflict_msg pkg filename conflicting])
                else conflicting_loop x self pkg filename rest probs))"

fun files_loop ::
  "'f libs \<Rightarrow> DependencyAnalyzer \<Rightarrow> package \<Rightarrow> string list \<Rightarrow> string list \<Rightarrow> error + string list" where
  "files_loop x self pkg [] probs = Inr probs"
| "files_loop x self pkg (filename # rest) probs =
     (case conflicting_loop x self pkg filename
             (query x [File filename, Latest_per_arch]) probs of
        Inl e \<Rightarrow> Inl e
      | Inr probs' \<Rightarrow> files_loop x self pkg rest probs')"

fun conflicts_loop ::
  "'f libs \<Rightarrow> DependencyAnalyzer \<Rightarrow> package list \<Rightarrow> string list \<Rightarrow> error + string list" where
  "conflicts_loop x self [] probs = Inr probs"
| "conflicts_loop x self (pkg # rest) probs =
     (case files_loop x self pkg (files pkg) probs of
        Inl e \<Rightarrow> Inl e
      | Inr probs' \<Rightarrow> conflicts_loop x self rest probs')"

definition find_conflicts :: "'f libs \<Rightarrow> DependencyAnalyzer \<Rightarrow> error + string list" where
  "find_conflicts x self = conflicts_loop x self (self_packages self) []"

subsection \<open>find_upgrade_problems\<close>

definition upgraded_msg :: "package \<Rightarrow> package \<Rightarrow> string" where
  "upgraded_msg pkg newer =
     nevra pkg @ '' would be upgraded by '' @ nevra newer @ '' from repo '' @ reponame newer"

definition obsoleted_msg :: "package \<Rightarrow> package \<Rightarrow> string" where
  "obsoleted_msg pkg obsoleting =
     nevra pkg @ '' would be obsoleted by '' @ nevra obsoleting @ '' from repo ''
       @ reponame obsoleting"

fun newer_loop :: "package \<Rightarrow> package list \<Rightarrow> string list \<Rightarrow> string list" where
  "newer_loop pkg [] probs = probs"
| "newer_loop pkg (newer # rest) probs =
     newer_loop pkg rest (probs @ [upgraded_msg pkg newer])"

fun obsoleting_loop :: "package \<Rightarrow> package list \<Rightarrow> string list \<Rightarrow> string list" where
  "obsoleting_loop pkg [] probs = probs"
| "obsoleting_loop pkg (obsoleting # rest) probs =
     obsoleting_loop pkg rest (probs @ [obsoleted_msg pkg obsoleting])"

fun upgrade_loop :: "'f libs \<Rightarrow> package list \<Rightarrow> string list \<Rightarrow> string list" where
  "upgrade_loop x [] probs = probs"
| "upgrade_loop x (pkg # rest) probs =
     upgrade_loop x rest
       (obsoleting_loop pkg (query x [Obsoletes [pkg]])
          (newer_loop pkg (query x [Name (name pkg), Arch (arch pkg), Evr_gt (evr pkg)])
             probs))"

definition find_upgrade_problems :: "'f libs \<Rightarrow> DependencyAnalyzer \<Rightarrow> string list" where
  "find_upgrade_problems x self = upgrade_loop x (self_packages self) []"

section \<open>Auxiliary definitions for the statements\<close>

text \<open>The entry of a NEVRA as an indexed read of \<open>_packagedeps\<close> would give it.\<close>

definition entry_of :: "DependencySet \<Rightarrow> string \<Rightarrow> pkgentry" where
  "entry_of ds nv = (case d_packagedeps ds nv of None \<Rightarrow> default_entry | Some e \<Rightarrow> e)"

text \<open>
  The calls that change a DependencySet: \<open>add_package\<close>, and the two lookups that index a
  \<open>defaultdict\<close>. A history of an object is a list of such calls, run from \<open>__init__\<close>.
\<close>

datatype ds_call =
    Add_package package string "package list" "string list"
  | Dependencies_for_package string
  | Dependencies_for_repository string

fun apply_call :: "DependencySet \<Rightarrow> ds_call \<Rightarrow> DependencySet" where
  "apply_call ds (Add_package pkg rname deps probs) = add_package ds pkg rname deps probs"
| "apply_call ds (Dependencies_for_package nv) = snd (dependencies_for_package ds nv)"
| "apply_call ds (Dependencies_for_repository rname) = snd (dependencies_for_repository ds rname)"

definition run_calls :: "ds_call list \<Rightarrow> DependencySet" where
  "run_calls cs = foldl apply_call DependencySet_init cs"

definition ds_inv :: "DependencySet \<Rightarrow> bool" where
  "ds_inv ds \<longleftrightarrow>
     d_overall_problems ds = (\<Union>e \<in> ran (d_packagedeps ds). set (problems e)) \<and>
     d_packages_with_problems ds = {nv. \<exists>e. d_packagedeps ds nv = Some e \<and> problems e \<noteq> []}"

text \<open>
  The packages of a query that the same query, narrowed to the packages obsoleting one
  of them, finds obsoleted: the set the two first loops of \<open>find_repoclosure_problems\<close>
  build.
\<close>

definition obsoleted_in :: "'f libs \<Rightarrow> filter_kw list \<Rightarrow> package set" where
  "obsoleted_in x q = {p \<in> set (query x q). query x (q @ [Obsoletes [p]]) \<noteq> []}"

text \<open>What one requirement of one package adds to the list of closure problems.\<close>

definition requirement_problems ::
  "'f libs \<Rightarrow> package set \<Rightarrow> package set \<Rightarrow> package \<Rightarrow> string \<Rightarrow> string list" where
  "requirement_problems x obsoleted obsoleted_from_repos pkg req =
     (if \<not> prefix ''rpmlib('' req
         \<and> (\<forall>p \<in> set (query x (available_q @ [Provides req])). p \<in> obsoleted)
         \<and> (\<exists>p \<in> set (query x (available_from_repos_q @ [Provides req])). p \<notin> obsoleted_from_repos)
      then [problem_msg req pkg] else [])"

text \<open>What one candidate of one file of one package adds to the list of conflicts, when
  the two file entries can be read.\<close>

definition candidate_problems ::
  "'f libs \<Rightarrow> DependencyAnalyzer \<Rightarrow> package \<Rightarrow> string \<Rightarrow> package \<Rightarrow> string list" where
  "candidate_problems x self pkg filename conflicting =
     (if conflicting = pkg \<or> packages_have_explicit_conflict x pkg conflicting then []
      else (case file_entries x self pkg conflicting filename of
              Inl e \<Rightarrow> []
            | Inr (lf, rf) \<Rightarrow>
                if matches x lf rf \<or> color x lf \<noteq> color x rf then []
                else [conflict_msg pkg filename conflicting]))"

text \<open>The DependencySet after the loop of \<open>try_to_install_all\<close>, as a fold.\<close>

definition record_install :: "'f libs \<Rightarrow> DependencySet \<Rightarrow> package \<Rightarrow> DependencySet" where
  "record_install x ds pkg =
     add_package ds pkg (reponame pkg) (r_installs (snd (try_to_install x [pkg])))
       (r_problems (snd (try_to_install x [pkg])))"

subsection \<open>Example packages\<close>

definition ex_libfoo :: package where
  "ex_libfoo = \<lparr>nevra = ''libfoo-1.0-1.x86_64'', name = ''libfoo'', arch = ''x86_64'',
     evr = ''1.0-1'', reponame = ''base'', requires = [''rpmlib(CompressedFileNames) <= 3.0.4-1''],
     files = [''/usr/lib64/libfoo.so''],
     location = ''libfoo-1.0-1.x86_64.rpm'', chksum = (1, ''aa'')\<rparr>"

definition ex_bar :: package where
  "ex_bar = \<lparr>nevra = ''bar-2.0-1.x86_64'', name = ''bar'', arch = ''x86_64'',
     evr = ''2.0-1'', reponame = ''@commandline'', requires = [''libfoo.so''],
     files = [''/usr/bin/tool''], location = ''/tmp/bar-2.0-1.x86_64.rpm'', chksum = (1, ''bb'')\<rparr>"

definition ex_bar_old :: package where
  "ex_bar_old = \<lparr>nevra = ''bar-1.0-1.x86_64'', name = ''bar'', arch = ''x86_64'',
     evr = ''1.0-1'', reponame = ''base'', requires = [], files = [],
     location = ''bar-1.0-1.x86_64.rpm'', chksum = (1, ''cc'')\<rparr>"

definition ex_tool :: package where
  "ex_tool = \<lparr>nevra = ''tool-1.0-1.x86_64'', name = ''tool'', arch = ''x86_64'',
     evr = ''1.0-1'', reponame = ''base'', requires = [''bar-api''], files = [''/usr/bin/tool''],
     location = ''tool-1.0-1.x86_64.rpm'', chksum = (1, ''dd'')\<rparr>"

subsection \<open>An example universe\<close>

text \<open>
  The repository \<open>base\<close> holds \<open>libfoo\<close>, \<open>tool\<close> and \<open>bar-1.0\<close>; \<open>bar-1.0\<close> provides
  \<open>bar-api\<close>, which \<open>tool\<close> requires. The package under test is \<open>bar-2.0\<close>: it requires
  \<open>libfoo.so\<close>, no longer provides \<open>bar-api\<close>, declares a conflict with \<open>bar < 2.0\<close> and
  owns \<open>/usr/bin/tool\<close>, as \<open>tool\<close> does, with another content and the same colour.
  A file entry is a pair of a digest and a colour; the header of the package of \<open>tool\<close>
  is given at the path where a download would put it.
\<close>

definition ex_query :: "filter_kw list \<Rightarrow> package list" where
  "ex_query kws =
     (if kws = [] then [ex_bar, ex_bar_old, ex_libfoo, ex_tool]
      else if kws = [Latest_per_arch] then [ex_bar, ex_libfoo, ex_tool]
      else if kws = [Reponame_neq ''@commandline'', Latest_per_arch]
        then [ex_bar_old, ex_libfoo, ex_tool]
      else if kws = [Latest_per_arch, Provides ''libfoo.so''] then [ex_libfoo]
      else if kws = [Reponame_neq ''@commandline'', Latest_per_arch, Provides ''libfoo.so'']
        then [ex_libfoo]
      else if kws = [Reponame_neq ''@commandline'', Latest_per_arch, Provides ''bar-api'']
        then [ex_bar_old]
      else if kws = [File ''/usr/bin/tool'', Latest_per_arch] then [ex_bar, ex_tool]
      else [])"

definition ex_run_goal :: "package list \<Rightarrow> goal" where
  "ex_run_goal ps =
     (if ps = [ex_bar]
      then \<lparr>g_run = True, g_list_installs = [ex_bar, ex_libfoo], g_list_upgrades = [],
            g_list_erasures = [], g_problems = []\<rparr>
      else if ps = [ex_bar, ex_bar_old]
      then \<lparr>g_run = False, g_list_installs = [], g_list_upgrades = [], g_list_erasures = [],
            g_problems = [''package bar-2.0-1.x86_64 conflicts with bar < 2.0 provided by bar-1.0-1.x86_64'']\<rparr>
      else \<lparr>g_run = False, g_list_installs = [], g_list_upgrades = [], g_list_erasures = [],
            g_problems = [''nothing provides bar-api needed by tool-1.0-1.x86_64'']\<rparr>)"

definition ex_hdr_files :: "string \<Rightarrow> (string \<rightharpoonup> string \<times> nat) option" where
  "ex_hdr_files path =
     (if path = ''/tmp/bar-2.0-1.x86_64.rpm'' then Some [''/usr/bin/tool'' \<mapsto> (''d1'', 0)]
      else if path = ''/var/tmp/tool-1.0-1.x86_64.rpm''
        then Some [''/usr/bin/tool'' \<mapsto> (''d2'', 0)]
      else None)"

definition ex_libs :: "(string \<times> nat) libs" where
  "ex_libs =
     \<lparr>query = ex_query, run_goal = ex_run_goal, hdr_files = ex_hdr_files,
      matches = (\<lambda>a b. fst a = fst b), color = snd,
      chksum_name = (\<lambda>n. ''sha256''), hexlify = (\<lambda>s. s)\<rparr>"

definition ex_self :: DependencyAnalyzer where
  "ex_self = \<lparr>self_repos_by_name = [''base'' \<mapsto> \<lparr>repo_name = ''base'', metadata_path = ''/srv/base''\<rparr>],
              self_packages = [ex_bar]\<rparr>"


text \<open>
  A second universe for the upgrade check: the repository \<open>updates\<close> holds \<open>bar-3.0\<close>,
  and \<open>tool\<close> declares that it obsoletes \<open>bar\<close>.
\<close>

definition ex_bar_new :: package where
  "ex_bar_new = \<lparr>nevra = ''bar-3.0-1.x86_64'', name = ''bar'', arch = ''x86_64'',
     evr = ''3.0-1'', reponame = ''updates'', requires = [], files = [],
     location = ''bar-3.0-1.x86_64.rpm'', chksum = (1, ''ee'')\<rparr>"

definition ex_upgrade_libs :: "(string \<times> nat) libs" where
  "ex_upgrade_libs =
     ex_libs\<lparr>query := (\<lambda>kws.
       if kws = [Name ''bar'', Arch ''x86_64'', Evr_gt ''2.0-1''] then [ex_bar_new]
       else if kws = [Obsoletes [ex_bar]] then [ex_tool]
       else [])\<rparr>"

section \<open>Properties of DependencySet\<close>

lemma add_package_packagedeps:
  "d_packagedeps (add_package ds pkg rname deps probs) =
     (d_packagedeps ds)(nevra pkg \<mapsto>
        (entry_of ds (nevra pkg))
          \<lparr>dependencies := dependencies (entry_of ds (nevra pkg)) @ map nevra deps,
           problems := problems (entry_of ds (nevra pkg)) @ probs\<rparr>)"
  by (simp add: add_package_def defaultdict_getitem_def entry_of_def default_entry_def Let_def
      split: option.splits)

lemma add_package_with_problems:
  "d_packages_with_problems (add_package ds pkg rname deps probs) =
     (if probs = [] then d_packages_with_problems ds
      else insert (nevra pkg) (d_packages_with_problems ds))"
  by (simp add: add_package_def defaultdict_getitem_def Let_def split: option.splits prod.splits)

lemma add_package_overall:
  "d_overall_problems (add_package ds pkg rname deps probs) = d_overall_problems ds \<union> set probs"
  by (simp add: add_package_def defaultdict_getitem_def Let_def split: option.splits prod.splits)

lemma add_package_package_repo:
  "d_package_repo (add_package ds pkg rname deps probs) = (d_package_repo ds)(nevra pkg \<mapsto> rname)"
  by (simp add: add_package_def defaultdict_getitem_def Let_def split: option.splits prod.splits)

lemma add_package_repodeps:
  "d_repodeps (add_package ds pkg rname deps probs) =
     (d_repodeps ds)(rname \<mapsto> (case d_repodeps ds rname of None \<Rightarrow> {} | Some s \<Rightarrow> s) \<union> set (map reponame deps))"
  by (simp add: add_package_def defaultdict_getitem_def Let_def split: option.splits prod.splits)

lemma entry_of_add_package:
  "entry_of (add_package ds pkg rname deps probs) nv =
     (if nv = nevra pkg
      then (entry_of ds nv)\<lparr>dependencies := dependencies (entry_of ds nv) @ map nevra deps,
            problems := problems (entry_of ds nv) @ probs\<rparr>
      else entry_of ds nv)"
  by (simp add: entry_of_def add_package_packagedeps)

lemma dependencies_for_package_fst:
  "fst (dependencies_for_package ds nv) = dependencies (entry_of ds nv)"
  by (simp add: dependencies_for_package_def defaultdict_getitem_def entry_of_def split: option.splits)

lemma dependencies_for_package_snd:
  "snd (dependencies_for_package ds nv) =
     (if nv \<in> dom (d_packagedeps ds) then ds
      else ds\<lparr>d_packagedeps := (d_packagedeps ds)(nv \<mapsto> default_entry)\<rparr>)"
  by (auto simp add: dependencies_for_package_def defaultdict_getitem_def split: option.splits)

lemma dependencies_for_repository_snd:
  "snd (dependencies_for_repository ds rname) =
     (if rname \<in> dom (d_repodeps ds) then ds
      else ds\<lparr>d_repodeps := (d_repodeps ds)(rname \<mapsto> {})\<rparr>)"
  by (auto simp add: dependencies_for_repository_def defaultdict_getitem_def split: option.splits)

lemma ds_inv_init: "ds_inv DependencySet_init"
  by (simp add: ds_inv_def DependencySet_init_def)

lemma Union_ran_upd:
  assumes "\<And>e. m k = Some e \<Longrightarrow> f e \<subseteq> f v"
  shows "(\<Union>e \<in> ran (m(k \<mapsto> v)). f e) = (\<Union>e \<in> ran m. f e) \<union> f v"
proof (rule set_eqI, rule iffI)
  fix y assume "y \<in> (\<Union>e \<in> ran (m(k \<mapsto> v)). f e)"
  then obtain e a where ea: "(m(k \<mapsto> v)) a = Some e" "y \<in> f e"
    by (auto simp: ran_def)
  show "y \<in> (\<Union>e \<in> ran m. f e) \<union> f v"
  proof (cases "a = k")
    case True
    with ea show ?thesis by simp
  next
    case False
    with ea have "m a = Some e" by simp
    then have "e \<in> ran m" by (rule ranI)
    with ea(2) show ?thesis by blast
  qed
next
  fix y assume y: "y \<in> (\<Union>e \<in> ran m. f e) \<union> f v"
  have v: "v \<in> ran (m(k \<mapsto> v))" by (rule ranI [of _ k]) simp
  show "y \<in> (\<Union>e \<in> ran (m(k \<mapsto> v)). f e)"
  proof (cases "y \<in> f v")
    case True
    with v show ?thesis by blast
  next
    case False
    with y obtain e a where ea: "m a = Some e" "y \<in> f e"
      by (auto simp: ran_def)
    have "a \<noteq> k" using assms ea False by blast
    then have "(m(k \<mapsto> v)) a = Some e" using ea by simp
    then have "e \<in> ran (m(k \<mapsto> v))" by (rule ranI)
    with ea(2) show ?thesis by blast
  qed
qed

lemma ds_inv_add:
  assumes "ds_inv ds"
  shows "ds_inv (add_package ds pkg rname deps probs)"
proof -
  let ?nv = "nevra pkg"
  let ?e = "(entry_of ds ?nv)\<lparr>dependencies := dependencies (entry_of ds ?nv) @ map nevra deps,
         problems := problems (entry_of ds ?nv) @ probs\<rparr>"
  have sub: "\<And>e. d_packagedeps ds ?nv = Some e \<Longrightarrow> set (problems e) \<subseteq> set (problems ?e)"
    by (simp add: entry_of_def)
  have "(\<Union>e \<in> ran ((d_packagedeps ds)(?nv \<mapsto> ?e)). set (problems e)) =
      (\<Union>e \<in> ran (d_packagedeps ds). set (problems e)) \<union> set (problems ?e)"
    using sub by (rule Union_ran_upd)
  moreover have "set (problems (entry_of ds ?nv)) \<subseteq> (\<Union>e \<in> ran (d_packagedeps ds). set (problems e))"
    by (auto simp: entry_of_def default_entry_def ran_def split: option.splits)
  ultimately have ran_eq: "(\<Union>e \<in> ran ((d_packagedeps ds)(?nv \<mapsto> ?e)). set (problems e)) =
      (\<Union>e \<in> ran (d_packagedeps ds). set (problems e)) \<union> set probs"
    by auto
  have pw: "{nv. \<exists>e. ((d_packagedeps ds)(?nv \<mapsto> ?e)) nv = Some e \<and> problems e \<noteq> []} =
      (if probs = [] then {nv. \<exists>e. d_packagedeps ds nv = Some e \<and> problems e \<noteq> []}
       else insert ?nv {nv. \<exists>e. d_packagedeps ds nv = Some e \<and> problems e \<noteq> []})"
    by (auto simp: entry_of_def default_entry_def split: if_splits option.splits)
  show ?thesis
    using assms unfolding ds_inv_def add_package_packagedeps add_package_overall add_package_with_problems
    using ran_eq pw by simp
qed

lemma ds_inv_deps_pkg:
  assumes "ds_inv ds"
  shows "ds_inv (snd (dependencies_for_package ds nv))"
proof (cases "nv \<in> dom (d_packagedeps ds)")
  case True
  with assms show ?thesis by (simp add: dependencies_for_package_snd)
next
  case False
  then have none: "d_packagedeps ds nv = None" by auto
  have "(\<Union>e \<in> ran ((d_packagedeps ds)(nv \<mapsto> default_entry)). set (problems e)) =
      (\<Union>e \<in> ran (d_packagedeps ds). set (problems e)) \<union> set (problems default_entry)"
    by (rule Union_ran_upd) (simp add: none)
  moreover have "{n. \<exists>e. ((d_packagedeps ds)(nv \<mapsto> default_entry)) n = Some e \<and> problems e \<noteq> []} =
      {n. \<exists>e. d_packagedeps ds n = Some e \<and> problems e \<noteq> []}"
    using none by (auto simp: default_entry_def)
  ultimately show ?thesis
    using assms False by (simp add: dependencies_for_package_snd ds_inv_def default_entry_def)
qed

lemma ds_inv_deps_repo: "ds_inv ds \<Longrightarrow> ds_inv (snd (dependencies_for_repository ds nv))"
  by (simp add: dependencies_for_repository_snd ds_inv_def)

lemma ds_inv_foldl: "ds_inv ds \<Longrightarrow> ds_inv (foldl apply_call ds cs)"
proof (induction cs arbitrary: ds)
  case Nil
  then show ?case by simp
next
  case (Cons c cs)
  have "ds_inv (apply_call ds c)"
    using Cons.prems by (cases c) (simp_all add: ds_inv_add ds_inv_deps_pkg ds_inv_deps_repo)
  then show ?case using Cons.IH by simp
qed

lemma ds_inv_run_calls: "ds_inv (run_calls cs)"
  unfolding run_calls_def by (rule ds_inv_foldl [OF ds_inv_init])

lemma packages_with_problems_foldl:
  "d_packages_with_problems (foldl apply_call ds cs) =
     d_packages_with_problems ds \<union>
     {nv. \<exists>pkg rname deps probs.
            Add_package pkg rname deps probs \<in> set cs \<and> nevra pkg = nv \<and> probs \<noteq> []}"
proof (induction cs arbitrary: ds)
  case Nil
  then show ?case by simp
next
  case (Cons c cs)
  show ?case
  proof (cases c)
    case (Add_package pkg rname deps probs)
    then show ?thesis
      unfolding foldl_Cons Cons.IH
      by (auto simp: add_package_with_problems)
  next
    case (Dependencies_for_package nv)
    then show ?thesis
      unfolding foldl_Cons Cons.IH
      by (auto simp: dependencies_for_package_snd)
  next
    case (Dependencies_for_repository rname)
    then show ?thesis
      unfolding foldl_Cons Cons.IH
      by (auto simp: dependencies_for_repository_snd)
  qed
qed

lemma overall_problems_foldl:
  "d_overall_problems (foldl apply_call ds cs) =
     d_overall_problems ds \<union>
     {m. \<exists>pkg rname deps probs. Add_package pkg rname deps probs \<in> set cs \<and> m \<in> set probs}"
proof (induction cs arbitrary: ds)
  case Nil
  then show ?case by simp
next
  case (Cons c cs)
  show ?case
  proof (cases c)
    case (Add_package pkg rname deps probs)
    then show ?thesis
      unfolding foldl_Cons Cons.IH
      by (auto simp: add_package_overall)
  next
    case (Dependencies_for_package nv)
    then show ?thesis
      unfolding foldl_Cons Cons.IH
      by (auto simp: dependencies_for_package_snd)
  next
    case (Dependencies_for_repository rname)
    then show ?thesis
      unfolding foldl_Cons Cons.IH
      by (auto simp: dependencies_for_repository_snd)
  qed
qed

section \<open>Properties of the loops of DependencyAnalyzer\<close>

lemma obsoleted_loop_eq:
  "obsoleted_loop x q pkgs acc = acc \<union> {p \<in> set pkgs. query x (q @ [Obsoletes [p]]) \<noteq> []}"
  by (induction pkgs arbitrary: acc) auto

lemma obsoleted_loop_obsoleted_in: "obsoleted_loop x q (query x q) {} = obsoleted_in x q"
  by (simp add: obsoleted_loop_eq obsoleted_in_def)

lemma requires_loop_eq:
  "requires_loop x ob obr pkg reqs probs =
     probs @ concat (map (requirement_problems x ob obr pkg) reqs)"
  by (induction reqs arbitrary: probs)
     (auto simp: requirement_problems_def Let_def filter_empty_conv)

lemma closure_loop_eq:
  "closure_loop x self ob obr pkgs probs =
     probs @ concat (map (\<lambda>pkg. if pkg \<in> set (self_packages self) \<or> pkg \<in> ob then []
                                 else concat (map (requirement_problems x ob obr pkg) (requires pkg)))
                         pkgs)"
  by (induction pkgs arbitrary: probs) (simp_all add: requires_loop_eq)

lemma find_repoclosure_problems_eq:
  "find_repoclosure_problems x self =
     concat (map (\<lambda>pkg. if pkg \<in> set (self_packages self) \<or> pkg \<in> obsoleted_in x available_q then []
                         else concat (map (requirement_problems x (obsoleted_in x available_q)
                                             (obsoleted_in x available_from_repos_q) pkg)
                                          (requires pkg)))
                 (query x available_q))"
  unfolding find_repoclosure_problems_def Let_def obsoleted_loop_obsoleted_in closure_loop_eq
  by simp


lemma problem_msg_inj:
  assumes "CHR '' '' \<notin> set (nevra p)" "CHR '' '' \<notin> set (nevra p')"
    and "problem_msg r p = problem_msg r' p'"
  shows "r = r' \<and> nevra p = nevra p'"
proof -
  let ?sep = "'' needed by ''"
  have eq: "r @ ?sep @ nevra p = r' @ ?sep @ nevra p'"
    using assms(3) by (simp add: problem_msg_def)
  have tw: "\<And>s n. CHR '' '' \<notin> set n \<Longrightarrow>
      takeWhile (\<lambda>c. c \<noteq> CHR '' '') (rev (s @ ?sep @ n)) = rev n"
    by (simp add: takeWhile_append)
  have "rev (nevra p) = takeWhile (\<lambda>c. c \<noteq> CHR '' '') (rev (r @ ?sep @ nevra p))"
    by (rule tw [OF assms(1), symmetric])
  also have "\<dots> = takeWhile (\<lambda>c. c \<noteq> CHR '' '') (rev (r' @ ?sep @ nevra p'))"
    by (simp only: eq)
  also have "\<dots> = rev (nevra p')"
    by (rule tw [OF assms(2)])
  finally have "rev (nevra p) = rev (nevra p')" .
  then have n: "nevra p = nevra p'" by simp
  with eq show ?thesis by simp
qed

lemma file_conflict_is_permitted_entries:
  "file_entries x self left right filename = Inr (lf, rf) \<Longrightarrow>
   file_conflict_is_permitted x self left right filename =
     Inr (matches x lf rf \<or> color x lf \<noteq> color x rf)"
  by (simp add: file_conflict_is_permitted_def)

lemma conflicting_loop_eq:
  assumes "\<forall>C \<in> set cs. C \<noteq> P \<and> \<not> packages_have_explicit_conflict x P C \<longrightarrow>
             (\<exists>lf rf. file_entries x self P C F = Inr (lf, rf))"
  shows "conflicting_loop x self P F cs probs =
           Inr (probs @ concat (map (candidate_problems x self P F) cs))"
  using assms
proof (induction cs arbitrary: probs)
  case Nil
  then show ?case by simp
next
  case (Cons C cs)
  have rest: "\<And>probs. conflicting_loop x self P F cs probs =
           Inr (probs @ concat (map (candidate_problems x self P F) cs))"
    using Cons by simp
  show ?case
  proof (cases "C = P \<or> packages_have_explicit_conflict x P C")
    case True
    then have "candidate_problems x self P F C = []"
      by (simp add: candidate_problems_def)
    with True show ?thesis by (auto simp: rest)
  next
    case False
    with Cons.prems obtain lf rf where e: "file_entries x self P C F = Inr (lf, rf)"
      by auto
    have "candidate_problems x self P F C =
            (if matches x lf rf \<or> color x lf \<noteq> color x rf then [] else [conflict_msg P F C])"
      using False e by (simp add: candidate_problems_def)
    then show ?thesis
      using False by (simp add: rest file_conflict_is_permitted_entries [OF e])
  qed
qed

lemma files_loop_eq:
  assumes "\<forall>F \<in> set fs. \<forall>C \<in> set (query x [File F, Latest_per_arch]).
             C \<noteq> P \<and> \<not> packages_have_explicit_conflict x P C \<longrightarrow>
             (\<exists>lf rf. file_entries x self P C F = Inr (lf, rf))"
  shows "files_loop x self P fs probs =
           Inr (probs @ concat (map (\<lambda>F. concat (map (candidate_problems x self P F)
                                                     (query x [File F, Latest_per_arch]))) fs))"
  using assms
proof (induction fs arbitrary: probs)
  case Nil
  then show ?case by simp
next
  case (Cons F fs)
  have "conflicting_loop x self P F (query x [File F, Latest_per_arch]) probs =
          Inr (probs @ concat (map (candidate_problems x self P F) (query x [File F, Latest_per_arch])))"
    by (rule conflicting_loop_eq) (use Cons.prems in simp)
  moreover have "\<And>probs. files_loop x self P fs probs =
           Inr (probs @ concat (map (\<lambda>F. concat (map (candidate_problems x self P F)
                                                     (query x [File F, Latest_per_arch]))) fs))"
    using Cons by simp
  ultimately show ?case by simp
qed

lemma conflicts_loop_eq:
  assumes "\<forall>P \<in> set ps. \<forall>F \<in> set (files P). \<forall>C \<in> set (query x [File F, Latest_per_arch]).
             C \<noteq> P \<and> \<not> packages_have_explicit_conflict x P C \<longrightarrow>
             (\<exists>lf rf. file_entries x self P C F = Inr (lf, rf))"
  shows "conflicts_loop x self ps probs =
           Inr (probs @ concat (map (\<lambda>P. concat (map (\<lambda>F. concat (map (candidate_problems x self P F)
                                                     (query x [File F, Latest_per_arch]))) (files P))) ps))"
  using assms
proof (induction ps arbitrary: probs)
  case Nil
  then show ?case by simp
next
  case (Cons P ps)
  have "files_loop x self P (files P) probs =
           Inr (probs @ concat (map (\<lambda>F. concat (map (candidate_problems x self P F)
                                                     (query x [File F, Latest_per_arch]))) (files P)))"
    by (rule files_loop_eq) (use Cons.prems in simp)
  moreover have "\<And>probs. conflicts_loop x self ps probs =
           Inr (probs @ concat (map (\<lambda>P. concat (map (\<lambda>F. concat (map (candidate_problems x self P F)
                                                     (query x [File F, Latest_per_arch]))) (files P))) ps))"
    using Cons by simp
  ultimately show ?case by simp
qed

lemma install_loop_eq: "install_loop x pkgs ds = foldl (record_install x) ds pkgs"
  by (induction pkgs arbitrary: ds) (simp_all add: record_install_def split: prod.splits)

lemma newer_loop_eq: "newer_loop pkg ns probs = probs @ map (upgraded_msg pkg) ns"
  by (induction ns arbitrary: probs) simp_all

lemma obsoleting_loop_eq: "obsoleting_loop pkg os probs = probs @ map (obsoleted_msg pkg) os"
  by (induction os arbitrary: probs) simp_all

lemma upgrade_loop_eq:
  "upgrade_loop x pkgs probs =
     probs @ concat (map (\<lambda>pkg.
        map (upgraded_msg pkg) (query x [Name (name pkg), Arch (arch pkg), Evr_gt (evr pkg)])
        @ map (obsoleted_msg pkg) (query x [Obsoletes [pkg]])) pkgs)"
  by (induction pkgs arbitrary: probs) (simp_all add: newer_loop_eq obsoleting_loop_eq)

lemma record_install_deps_mono:
  "set (dependencies (entry_of ds nv)) \<subseteq> set (dependencies (entry_of (record_install x ds pkg) nv))"
  by (simp add: record_install_def entry_of_add_package)

lemma foldl_record_install_deps_mono:
  "set (dependencies (entry_of ds nv))
     \<subseteq> set (dependencies (entry_of (foldl (record_install x) ds pkgs) nv))"
proof (induction pkgs arbitrary: ds)
  case Nil
  then show ?case by simp
next
  case (Cons p ps)
  have "set (dependencies (entry_of ds nv)) \<subseteq> set (dependencies (entry_of (record_install x ds p) nv))"
    by (rule record_install_deps_mono)
  also have "\<dots> \<subseteq> set (dependencies (entry_of (foldl (record_install x) (record_install x ds p) ps) nv))"
    by (rule Cons.IH)
  finally show ?case by simp
qed

lemma try_to_install_installs:
  "g_run (run_goal x pkgs) \<Longrightarrow> r_installs (snd (try_to_install x pkgs)) = g_list_installs (run_goal x pkgs)"
  by (simp add: try_to_install_def Let_def)

lemma record_install_own_nevra:
  assumes "g_run (run_goal x [p])" "p \<in> set (g_list_installs (run_goal x [p]))"
  shows "nevra p \<in> set (dependencies (entry_of (record_install x ds p) (nevra p)))"
  using assms by (simp add: record_install_def entry_of_add_package try_to_install_installs)

lemma foldl_record_install_own_nevra:
  assumes "p \<in> set pkgs" "g_run (run_goal x [p])" "p \<in> set (g_list_installs (run_goal x [p]))"
  shows "nevra p \<in> set (dependencies (entry_of (foldl (record_install x) ds pkgs) (nevra p)))"
  using assms(1)
proof (induction pkgs arbitrary: ds)
  case Nil
  then show ?case by simp
next
  case (Cons q qs)
  show ?case
  proof (cases "p = q")
    case True
    have "nevra p \<in> set (dependencies (entry_of (record_install x ds p) (nevra p)))"
      using assms(2,3) by (rule record_install_own_nevra)
    then show ?thesis
      using foldl_record_install_deps_mono [of "record_install x ds p" "nevra p" x qs] True
      by auto
  next
    case False
    with Cons.prems have "p \<in> set qs" by simp
    then show ?thesis using Cons.IH by simp
  qed
qed

lemma find_conflicts_eq:
  assumes "\<forall>P \<in> set (self_packages self). \<forall>F \<in> set (files P).
             \<forall>C \<in> set (query x [File F, Latest_per_arch]).
               C \<noteq> P \<and> \<not> packages_have_explicit_conflict x P C \<longrightarrow>
               (\<exists>lf rf. file_entries x self P C F = Inr (lf, rf))"
  shows "find_conflicts x self =
     Inr (concat (map (\<lambda>P. concat (map (\<lambda>F. concat (map (candidate_problems x self P F)
            (query x [File F, Latest_per_arch]))) (files P))) (self_packages self)))"
proof -
  have "find_conflicts x self =
     Inr ([] @ concat (map (\<lambda>P. concat (map (\<lambda>F. concat (map (candidate_problems x self P F)
            (query x [File F, Latest_per_arch]))) (files P))) (self_packages self)))"
    unfolding find_conflicts_def using assms by (rule conflicts_loop_eq)
  then show ?thesis by simp
qed

lemma file_conflict_is_permitted_not_under_test:
  assumes "right \<notin> set (self_packages self)"
  shows "\<exists>e. file_conflict_is_permitted x self left right filename = Inl e"
  using assms
  by (simp add: file_conflict_is_permitted_def file_entries_def download_package_def Let_def
      split: option.splits)

section \<open>The claims about DependencySet\<close>




text \<open>
  C8, as stated, at a concrete input. The claim says that adding a package with an empty
  problem list leaves it out of \<open>packages_with_problems\<close>. Here \<open>bar\<close> is first added
  with one problem and then with none: after the second call it is still a package with
  problems.
\<close>

theorem empty_problems_not_in_packages_with_problems_counterexample:
  "nevra ex_bar \<in> fst (packages_with_problems
      (run_calls [Add_package ex_bar ''@commandline'' [] [''nothing provides libfoo.so''],
                  Add_package ex_bar ''@commandline'' [ex_bar] []]))"
  by (simp add: run_calls_def packages_with_problems_def add_package_def defaultdict_getitem_def
      DependencySet_init_def default_entry_def ex_bar_def Let_def)

text \<open>
  C8, amended. After every sequence of calls on a new DependencySet, \<open>overall_problems\<close>
  is the union of the problem lists of all recorded packages, which is the union of the
  problem lists given to \<open>add_package\<close>; it is not empty exactly when some package has a
  problem, which is exactly when \<open>packages_with_problems\<close> is not empty. A NEVRA is in
  \<open>packages_with_problems\<close> exactly when its recorded problem list is not empty, which
  is exactly when some call of \<open>add_package\<close> gave problems for it. Adding a package with
  an empty problem list makes its NEVRA one of \<open>packages\<close> and changes neither
  \<open>packages_with_problems\<close> nor \<open>overall_problems\<close>: the package is in
  \<open>packages_with_problems\<close> afterwards exactly when an earlier call had recorded
  problems for it.
\<close>

theorem DependencySet_invariant:
  "fst (overall_problems (run_calls cs))
     = (\<Union>e \<in> ran (fst (package_dependencies (run_calls cs))). set (problems e))
   \<and> fst (overall_problems (run_calls cs))
     = {m. \<exists>pkg' rname' deps' probs'.
             Add_package pkg' rname' deps' probs' \<in> set cs \<and> m \<in> set probs'}
   \<and> (fst (overall_problems (run_calls cs)) \<noteq> {} \<longleftrightarrow>
        (\<exists>nv e. fst (package_dependencies (run_calls cs)) nv = Some e \<and> problems e \<noteq> []))
   \<and> (fst (overall_problems (run_calls cs)) \<noteq> {} \<longleftrightarrow>
        fst (packages_with_problems (run_calls cs)) \<noteq> {})
   \<and> (nv \<in> fst (packages_with_problems (run_calls cs)) \<longleftrightarrow>
        (\<exists>e. fst (package_dependencies (run_calls cs)) nv = Some e \<and> problems e \<noteq> []))
   \<and> (nv \<in> fst (packages_with_problems (run_calls cs)) \<longleftrightarrow>
        (\<exists>pkg' rname' deps' probs'.
            Add_package pkg' rname' deps' probs' \<in> set cs \<and> nevra pkg' = nv \<and> probs' \<noteq> []))
   \<and> nevra pkg \<in> fst (packages (add_package (run_calls cs) pkg rname deps []))
   \<and> fst (packages_with_problems (add_package (run_calls cs) pkg rname deps []))
       = fst (packages_with_problems (run_calls cs))
   \<and> (nevra pkg \<in> fst (packages_with_problems (add_package (run_calls cs) pkg rname deps []))
        \<longleftrightarrow>
        (\<exists>pkg' rname' deps' probs'.
            Add_package pkg' rname' deps' probs' \<in> set cs \<and> nevra pkg' = nevra pkg
            \<and> probs' \<noteq> []))
   \<and> fst (overall_problems (add_package (run_calls cs) pkg rname deps []))
       = fst (overall_problems (run_calls cs))"
proof -
  let ?ds = "run_calls cs"
  have inv: "ds_inv ?ds" by (rule ds_inv_run_calls)
  then have o: "d_overall_problems ?ds = (\<Union>e \<in> ran (d_packagedeps ?ds). set (problems e))"
    and w: "d_packages_with_problems ?ds = {nv. \<exists>e. d_packagedeps ?ds nv = Some e \<and> problems e \<noteq> []}"
    by (simp_all add: ds_inv_def)
  have ex: "(d_overall_problems ?ds \<noteq> {}) = (\<exists>nv e. d_packagedeps ?ds nv = Some e \<and> problems e \<noteq> [])"
    unfolding o by (auto simp: ran_def)
  have ne: "(d_overall_problems ?ds \<noteq> {}) = (d_packages_with_problems ?ds \<noteq> {})"
    unfolding ex w by auto
  have oc: "d_overall_problems ?ds = {m. \<exists>pkg' rname' deps' probs'.
             Add_package pkg' rname' deps' probs' \<in> set cs \<and> m \<in> set probs'}"
    by (simp add: run_calls_def overall_problems_foldl DependencySet_init_def)
  have we: "\<And>n. (n \<in> d_packages_with_problems ?ds) =
      (\<exists>e. d_packagedeps ?ds n = Some e \<and> problems e \<noteq> [])"
    unfolding w by simp
  have wc: "\<And>n. (n \<in> d_packages_with_problems ?ds) =
      (\<exists>pkg' rname' deps' probs'.
            Add_package pkg' rname' deps' probs' \<in> set cs \<and> nevra pkg' = n \<and> probs' \<noteq> [])"
    by (simp add: run_calls_def packages_with_problems_foldl DependencySet_init_def)
  have c1: "fst (overall_problems ?ds) = (\<Union>e \<in> ran (fst (package_dependencies ?ds)). set (problems e))"
    using o by (simp add: overall_problems_def package_dependencies_def)
  have c2: "fst (overall_problems ?ds) = {m. \<exists>pkg' rname' deps' probs'.
             Add_package pkg' rname' deps' probs' \<in> set cs \<and> m \<in> set probs'}"
    using oc by (simp add: overall_problems_def)
  have c3: "(fst (overall_problems ?ds) \<noteq> {}) =
        (\<exists>nv e. fst (package_dependencies ?ds) nv = Some e \<and> problems e \<noteq> [])"
    using ex by (simp add: overall_problems_def package_dependencies_def)
  have c4: "(fst (overall_problems ?ds) \<noteq> {}) = (fst (packages_with_problems ?ds) \<noteq> {})"
    using ne by (simp add: overall_problems_def packages_with_problems_def)
  have c5: "(nv \<in> fst (packages_with_problems ?ds)) =
        (\<exists>e. fst (package_dependencies ?ds) nv = Some e \<and> problems e \<noteq> [])"
    using we [of nv] by (simp add: packages_with_problems_def package_dependencies_def)
  have c6: "(nv \<in> fst (packages_with_problems ?ds)) =
        (\<exists>pkg' rname' deps' probs'.
            Add_package pkg' rname' deps' probs' \<in> set cs \<and> nevra pkg' = nv \<and> probs' \<noteq> [])"
    using wc [of nv] by (simp add: packages_with_problems_def)
  have c7: "nevra pkg \<in> fst (packages (add_package ?ds pkg rname deps []))"
    by (simp add: packages_def add_package_packagedeps)
  have c8: "fst (packages_with_problems (add_package ?ds pkg rname deps []))
       = fst (packages_with_problems ?ds)"
    by (simp add: packages_with_problems_def add_package_with_problems)
  have c9: "(nevra pkg \<in> fst (packages_with_problems (add_package ?ds pkg rname deps []))) =
        (\<exists>pkg' rname' deps' probs'.
            Add_package pkg' rname' deps' probs' \<in> set cs \<and> nevra pkg' = nevra pkg
            \<and> probs' \<noteq> [])"
    unfolding c8 using wc [of "nevra pkg"] by (simp add: packages_with_problems_def)
  have c10: "fst (overall_problems (add_package ?ds pkg rname deps []))
       = fst (overall_problems ?ds)"
    by (simp add: overall_problems_def add_package_overall)
  from c1 c2 c3 c4 c5 c6 c7 c8 c9 c10 show ?thesis by blast
qed

theorem DependencySet_invariant_witness:
  "fst (overall_problems (run_calls [Add_package ex_bar ''@commandline'' [] [''p1'']])) = {''p1''}
   \<and> fst (packages_with_problems (run_calls [Add_package ex_bar ''@commandline'' [] [''p1'']]))
       = {''bar-2.0-1.x86_64''}
   \<and> nevra ex_libfoo \<in> fst (packages (add_package
        (run_calls [Add_package ex_bar ''@commandline'' [] [''p1'']]) ex_libfoo ''base'' [] []))
   \<and> nevra ex_libfoo \<notin> fst (packages_with_problems (add_package
        (run_calls [Add_package ex_bar ''@commandline'' [] [''p1'']]) ex_libfoo ''base'' [] []))
   \<and> nevra ex_bar \<in> fst (packages_with_problems (add_package
        (run_calls [Add_package ex_bar ''@commandline'' [] [''p1'']]) ex_bar ''@commandline'' [] []))"
proof -
  let ?cs = "[Add_package ex_bar ''@commandline'' [] [''p1'']]"
  note tl = DependencySet_invariant
    [where cs = ?cs and pkg = ex_libfoo and rname = "''base''" and deps = "[]"]
  note tb = DependencySet_invariant
    [where cs = ?cs and pkg = ex_bar and rname = "''@commandline''" and deps = "[]"]
  note tl6 = tl [THEN conjunct2, THEN conjunct2, THEN conjunct2, THEN conjunct2, THEN conjunct2]
  note tl9 = tl6 [THEN conjunct2, THEN conjunct2, THEN conjunct2]
  note tb9 = tb [THEN conjunct2, THEN conjunct2, THEN conjunct2, THEN conjunct2, THEN conjunct2,
    THEN conjunct2, THEN conjunct2, THEN conjunct2]
  have n: "nevra ex_bar = ''bar-2.0-1.x86_64''" "nevra ex_libfoo = ''libfoo-1.0-1.x86_64''"
    by (simp_all add: ex_bar_def ex_libfoo_def)
  have a: "fst (overall_problems (run_calls ?cs)) = {''p1''}"
    using tl [THEN conjunct2, THEN conjunct1] by simp
  have "\<And>nv. (nv \<in> fst (packages_with_problems (run_calls ?cs))) = (nv = ''bar-2.0-1.x86_64'')"
    using tl6 [THEN conjunct1] by (simp add: n eq_commute)
  then have b: "fst (packages_with_problems (run_calls ?cs)) = {''bar-2.0-1.x86_64''}"
    by (intro set_eqI) simp
  have c: "nevra ex_libfoo \<in> fst (packages (add_package (run_calls ?cs) ex_libfoo ''base'' [] []))"
    using tl6 [THEN conjunct2, THEN conjunct1] by simp
  have d: "nevra ex_libfoo \<notin> fst (packages_with_problems (add_package (run_calls ?cs) ex_libfoo ''base'' [] []))"
    using tl9 [THEN conjunct1] by (simp add: n)
  have e: "nevra ex_bar \<in> fst (packages_with_problems (add_package (run_calls ?cs) ex_bar ''@commandline'' [] []))"
    using tb9 [THEN conjunct1] by simp
  from a b c d e show ?thesis by simp
qed

text \<open>
  C9, as stated, at a concrete input. The claim says that no accessor changes what is
  observed afterwards. On a new DependencySet, \<open>dependencies_for_package\<close> of an unknown
  NEVRA makes that NEVRA one of \<open>packages\<close>, and \<open>dependencies_for_repository\<close> of an
  unknown repository makes it a key of \<open>repository_dependencies\<close>.
\<close>

theorem accessors_read_only_counterexample:
  "fst (packages (snd (dependencies_for_package DependencySet_init ''bar-2.0-1.x86_64'')))
     = {''bar-2.0-1.x86_64''}
   \<and> fst (packages DependencySet_init) = {}
   \<and> dom (fst (repository_dependencies (snd (dependencies_for_repository DependencySet_init ''base''))))
     = {''base''}
   \<and> dom (fst (repository_dependencies DependencySet_init)) = {}"
  by (simp add: packages_def dependencies_for_package_def defaultdict_getitem_def
      repository_dependencies_def dependencies_for_repository_def DependencySet_init_def)

text \<open>
  C9, amended. The accessors \<open>packages\<close>, \<open>overall_problems\<close>, \<open>packages_with_problems\<close>,
  \<open>package_dependencies\<close>, \<open>repository_dependencies\<close> and \<open>repository_for_package\<close>
  leave the object as it was. \<open>dependencies_for_package\<close> and
  \<open>dependencies_for_repository\<close> leave it as it was for a known key; for an unknown key
  they return an empty result, not an error, and store the key with the empty default
  value, so that the key is observed afterwards. \<open>repository_for_package\<close> fails with
  \<open>KeyError\<close> for an absent key.
\<close>

theorem accessors_effect:
  "snd (packages ds) = ds \<and> snd (overall_problems ds) = ds
   \<and> snd (packages_with_problems ds) = ds \<and> snd (package_dependencies ds) = ds
   \<and> snd (repository_dependencies ds) = ds \<and> snd (repository_for_package ds k) = ds
   \<and> snd (dependencies_for_package ds nv) =
       (if nv \<in> fst (packages ds) then ds
        else ds\<lparr>d_packagedeps := (d_packagedeps ds)(nv \<mapsto> \<lparr>dependencies = [], problems = []\<rparr>)\<rparr>)
   \<and> snd (dependencies_for_repository ds rname) =
       (if rname \<in> dom (fst (repository_dependencies ds)) then ds
        else ds\<lparr>d_repodeps := (d_repodeps ds)(rname \<mapsto> {})\<rparr>)
   \<and> (nv \<notin> fst (packages ds) \<longrightarrow> fst (dependencies_for_package ds nv) = [])
   \<and> (rname \<notin> dom (fst (repository_dependencies ds)) \<longrightarrow>
        fst (dependencies_for_repository ds rname) = {})
   \<and> (d_package_repo ds k = None \<longrightarrow> fst (repository_for_package ds k) = Inl KeyError)"
  by (auto simp: packages_def overall_problems_def packages_with_problems_def
      package_dependencies_def repository_dependencies_def repository_for_package_def
      dependencies_for_package_snd dependencies_for_repository_snd dependencies_for_package_fst
      entry_of_def default_entry_def dependencies_for_repository_def defaultdict_getitem_def
      split: option.splits)

theorem accessors_effect_witness:
  "fst (dependencies_for_package DependencySet_init ''bar'') = []
   \<and> fst (dependencies_for_repository DependencySet_init ''base'') = {}
   \<and> fst (repository_for_package DependencySet_init ''bar'') = Inl KeyError
   \<and> snd (dependencies_for_package (snd (dependencies_for_package DependencySet_init ''bar'')) ''bar'')
       = snd (dependencies_for_package DependencySet_init ''bar'')"
proof -
  have a: "''bar'' \<notin> fst (packages DependencySet_init)"
    by (simp add: packages_def DependencySet_init_def)
  have b: "''base'' \<notin> dom (fst (repository_dependencies DependencySet_init))"
    by (simp add: repository_dependencies_def DependencySet_init_def)
  have c: "d_package_repo DependencySet_init ''bar'' = None"
    by (simp add: DependencySet_init_def)
  have d: "''bar'' \<in> fst (packages (snd (dependencies_for_package DependencySet_init ''bar'')))"
    by (simp add: packages_def dependencies_for_package_def defaultdict_getitem_def DependencySet_init_def)
  show ?thesis
    using accessors_effect [of DependencySet_init "''bar''" "''bar''" "''base''"]
      accessors_effect [of "snd (dependencies_for_package DependencySet_init ''bar'')" "''bar''" "''bar''" "''base''"]
      a b c d by simp
qed

section \<open>The claims about DependencyAnalyzer\<close>

text \<open>
  C1. Let \<open>p\<close> be a latest-per-architecture package of the universe that is not a
  package under test and that no latest-per-architecture package obsoletes, and \<open>r\<close> a
  requirement of \<open>p\<close> whose text does not start with \<open>rpmlib(\<close>. Then
  \<open>find_repoclosure_problems\<close> reports the string "nothing provides r needed by p" if and
  only if (a) every latest-per-architecture package of the whole universe that provides
  \<open>r\<close> is obsoleted, and (b) some latest-per-architecture package of the repositories
  alone (without \<open>@commandline\<close>) provides \<open>r\<close> and is not obsoleted there. So when
  (a) holds and (b) does not, nothing is reported. The packages that provide \<open>r\<close> are
  those the resolver returns for \<open>filter(provides=r)\<close>; the NEVRA of a package holds no
  space, so that the string names one requirement only.
\<close>

theorem find_repoclosure_problems_reports:
  assumes "p \<in> set (query x [Latest_per_arch])"
    and "p \<notin> set (self_packages self)"
    and "p \<notin> obsoleted_in x [Latest_per_arch]"
    and "r \<in> set (requires p)"
    and "\<not> prefix ''rpmlib('' r"
    and "\<forall>q \<in> set (query x [Latest_per_arch]). CHR '' '' \<notin> set (nevra q)"
  shows "''nothing provides '' @ r @ '' needed by '' @ nevra p \<in> set (find_repoclosure_problems x self)
     \<longleftrightarrow>
       (\<forall>q \<in> set (query x [Latest_per_arch, Provides r]). q \<in> obsoleted_in x [Latest_per_arch])
     \<and> (\<exists>q \<in> set (query x [Reponame_neq ''@commandline'', Latest_per_arch, Provides r]).
           q \<notin> obsoleted_in x [Reponame_neq ''@commandline'', Latest_per_arch])"
    (is "?msg \<in> _ \<longleftrightarrow> ?A \<and> ?B")
proof
  assume "?msg \<in> set (find_repoclosure_problems x self)"
  then obtain p' r' where p': "p' \<in> set (query x [Latest_per_arch])"
    and m: "?msg \<in> set (requirement_problems x (obsoleted_in x available_q)
                 (obsoleted_in x available_from_repos_q) p' r')"
    unfolding find_repoclosure_problems_eq
    by (auto simp: available_q_def split: if_splits)
  from m have c: "\<not> prefix ''rpmlib('' r'"
      "\<forall>q \<in> set (query x (available_q @ [Provides r'])). q \<in> obsoleted_in x available_q"
      "\<exists>q \<in> set (query x (available_from_repos_q @ [Provides r'])). q \<notin> obsoleted_in x available_from_repos_q"
      "problem_msg r p = problem_msg r' p'"
    by (auto simp: requirement_problems_def problem_msg_def split: if_splits)
  have "r = r'"
    using problem_msg_inj [OF _ _ c(4)] assms(1,6) p' by blast
  with c show "?A \<and> ?B"
    by (simp add: available_q_def available_from_repos_q_def)
next
  assume ab: "?A \<and> ?B"
  have "?msg \<in> set (requirement_problems x (obsoleted_in x available_q)
                 (obsoleted_in x available_from_repos_q) p r)"
    using ab assms(5)
    by (simp add: requirement_problems_def problem_msg_def available_q_def available_from_repos_q_def)
  then show "?msg \<in> set (find_repoclosure_problems x self)"
    unfolding find_repoclosure_problems_eq
    using assms(1-4) by (auto simp: available_q_def)
qed

theorem find_repoclosure_problems_reports_witness:
  "ex_tool \<in> set (query ex_libs [Latest_per_arch])
   \<and> ex_tool \<notin> set (self_packages ex_self)
   \<and> ex_tool \<notin> obsoleted_in ex_libs [Latest_per_arch]
   \<and> ''bar-api'' \<in> set (requires ex_tool)
   \<and> \<not> prefix ''rpmlib('' ''bar-api''
   \<and> CHR '' '' \<notin> (\<Union>q \<in> set (query ex_libs [Latest_per_arch]). set (nevra q))
   \<and> ''nothing provides bar-api needed by tool-1.0-1.x86_64''
        \<in> set (find_repoclosure_problems ex_libs ex_self)"
proof -
  have h1: "ex_tool \<in> set (query ex_libs [Latest_per_arch])"
    by (simp add: ex_libs_def ex_query_def)
  have h2: "ex_tool \<notin> set (self_packages ex_self)"
    by (simp add: ex_self_def ex_tool_def ex_bar_def)
  have h3: "ex_tool \<notin> obsoleted_in ex_libs [Latest_per_arch]"
    by (simp add: obsoleted_in_def ex_libs_def ex_query_def)
  have h4: "''bar-api'' \<in> set (requires ex_tool)"
    by (simp add: ex_tool_def)
  have h5: "\<not> prefix ''rpmlib('' ''bar-api''"
    by simp
  have h6: "\<forall>q \<in> set (query ex_libs [Latest_per_arch]). CHR '' '' \<notin> set (nevra q)"
    by (simp add: ex_libs_def ex_query_def ex_tool_def ex_bar_def ex_libfoo_def)
  have a: "\<forall>q \<in> set (query ex_libs [Latest_per_arch, Provides ''bar-api'']).
             q \<in> obsoleted_in ex_libs [Latest_per_arch]"
    by (simp add: ex_libs_def ex_query_def)
  have b: "\<exists>q \<in> set (query ex_libs [Reponame_neq ''@commandline'', Latest_per_arch, Provides ''bar-api'']).
             q \<notin> obsoleted_in ex_libs [Reponame_neq ''@commandline'', Latest_per_arch]"
    by (simp add: obsoleted_in_def ex_libs_def ex_query_def)
  have n: "nevra ex_tool = ''tool-1.0-1.x86_64''"
    by (simp add: ex_tool_def)
  show ?thesis
    using find_repoclosure_problems_reports [OF h1 h2 h3 h4 h5 h6] a b h1 h2 h3 h4 h5 h6
    by (simp add: n)
qed

text \<open>
  C2, at a failing input. In the example universe the package under test \<open>bar\<close> owns
  \<open>/usr/bin/tool\<close>; so does \<open>tool\<close> of the repository \<open>base\<close>, a latest-per-architecture
  package distinct from \<open>bar\<close> with no explicit conflict, whose entry for the file does
  not match the one of \<open>bar\<close> and has the same colour. The claim, like the docstring of
  \<open>find_conflicts\<close>, expects the one string
  "bar-2.0-1.x86_64 provides /usr/bin/tool which is also provided by tool-1.0-1.x86_64".
  The code returns no list: \<open>_file_conflict_is_permitted\<close> asks \<open>download_package\<close> for
  the repository package, and that call raises \<open>AttributeError\<close>.
\<close>

theorem find_conflicts_repository_candidate_raises:
  "ex_bar \<in> set (self_packages ex_self)
   \<and> ''/usr/bin/tool'' \<in> set (files ex_bar)
   \<and> ex_tool \<in> set (query ex_libs [File ''/usr/bin/tool'', Latest_per_arch])
   \<and> ex_tool \<noteq> ex_bar
   \<and> \<not> packages_have_explicit_conflict ex_libs ex_bar ex_tool
   \<and> \<not> matches ex_libs (''d1'', 0) (''d2'', 0)
   \<and> color ex_libs (''d1'', 0) = color ex_libs (''d2'', 0)
   \<and> file_conflict_is_permitted ex_libs ex_self ex_bar ex_tool ''/usr/bin/tool'' = Inl AttributeError
   \<and> find_conflicts ex_libs ex_self = Inl AttributeError"
proof -
  have s: "self_packages ex_self = [ex_bar]" by (simp add: ex_self_def)
  have f: "files ex_bar = [''/usr/bin/tool'']" by (simp add: ex_bar_def)
  have q: "query ex_libs [File ''/usr/bin/tool'', Latest_per_arch] = [ex_bar, ex_tool]"
    by (simp add: ex_libs_def ex_query_def)
  have ne: "ex_tool \<noteq> ex_bar"
    by (simp add: ex_tool_def ex_bar_def)
  have nc: "\<not> packages_have_explicit_conflict ex_libs ex_bar ex_tool"
    by (simp add: packages_have_explicit_conflict_def ex_libs_def ex_run_goal_def
        ex_tool_def ex_bar_def ex_bar_old_def sublist_code)
  have m: "\<not> matches ex_libs (''d1'', 0::nat) (''d2'', 0)"
    "color ex_libs (''d1'', 0::nat) = color ex_libs (''d2'', 0)"
    by (simp_all add: ex_libs_def)
  have d: "download_package ex_libs ex_self ex_tool = Inl AttributeError"
    by (simp add: download_package_def ex_self_def ex_tool_def ex_bar_def)
  have h: "hdr_files ex_libs (location ex_bar) = Some [''/usr/bin/tool'' \<mapsto> (''d1'', 0)]"
    by (simp add: ex_libs_def ex_hdr_files_def ex_bar_def)
  have p: "file_conflict_is_permitted ex_libs ex_self ex_bar ex_tool ''/usr/bin/tool'' = Inl AttributeError"
    by (simp add: file_conflict_is_permitted_def file_entries_def d h)
  have "find_conflicts ex_libs ex_self = Inl AttributeError"
    using ne nc by (simp add: find_conflicts_def s f q p)
  with s f q ne nc m p show ?thesis by simp
qed

text \<open>
  C7. \<open>_packages_have_explicit_conflict\<close> holds exactly when the problem list of the
  goal that installs both packages is not empty and its first problem contains the text
  \<open>conflicts\<close>; and in \<open>find_conflicts\<close> a candidate other than the package itself is
  skipped exactly in that case: otherwise the file entries are compared, and the result
  of the comparison decides whether a string is added.
\<close>

theorem explicit_conflict_skip:
  "(packages_have_explicit_conflict x P C \<longleftrightarrow>
      g_problems (run_goal x [P, C]) \<noteq> []
      \<and> sublist ''conflicts'' (hd (g_problems (run_goal x [P, C]))))
   \<and> conflicting_loop x self P F (C # rest) probs =
      (if C = P then conflicting_loop x self P F rest probs
       else if g_problems (run_goal x [P, C]) \<noteq> []
               \<and> sublist ''conflicts'' (hd (g_problems (run_goal x [P, C])))
       then conflicting_loop x self P F rest probs
       else (case file_conflict_is_permitted x self P C F of
               Inl e \<Rightarrow> Inl e
             | Inr permitted \<Rightarrow>
                 conflicting_loop x self P F rest
                   (if permitted then probs
                    else probs @ [nevra P @ '' provides '' @ F @ '' which is also provided by '' @ nevra C])))"
proof -
  have i: "packages_have_explicit_conflict x P C \<longleftrightarrow>
      g_problems (run_goal x [P, C]) \<noteq> []
      \<and> sublist ''conflicts'' (hd (g_problems (run_goal x [P, C])))"
    by (simp add: packages_have_explicit_conflict_def Let_def split: list.splits)
  show ?thesis
    unfolding i [symmetric]
    by (simp add: conflict_msg_def split: sum.splits)
qed

theorem explicit_conflict_skip_witness:
  "packages_have_explicit_conflict ex_libs ex_bar ex_bar_old
   \<and> \<not> packages_have_explicit_conflict ex_libs ex_bar ex_tool
   \<and> conflicting_loop ex_libs ex_self ex_bar ''/usr/bin/tool'' [ex_bar_old] [] = Inr []"
proof -
  have g1: "g_problems (run_goal ex_libs [ex_bar, ex_bar_old]) =
      [''package bar-2.0-1.x86_64 conflicts with bar < 2.0 provided by bar-1.0-1.x86_64'']"
    by (simp add: ex_libs_def ex_run_goal_def ex_bar_def ex_bar_old_def)
  have g2: "g_problems (run_goal ex_libs [ex_bar, ex_tool]) =
      [''nothing provides bar-api needed by tool-1.0-1.x86_64'']"
    by (simp add: ex_libs_def ex_run_goal_def ex_bar_def ex_bar_old_def ex_tool_def)
  have s1: "sublist ''conflicts'' ''package bar-2.0-1.x86_64 conflicts with bar < 2.0 provided by bar-1.0-1.x86_64''"
    by (simp add: sublist_code)
  have s2: "\<not> sublist ''conflicts'' ''nothing provides bar-api needed by tool-1.0-1.x86_64''"
    by (simp add: sublist_code)
  have ne: "ex_bar_old \<noteq> ex_bar" by (simp add: ex_bar_def ex_bar_old_def)
  show ?thesis
    using explicit_conflict_skip [of ex_libs ex_bar ex_bar_old ex_self "''/usr/bin/tool''" "[]" "[]"]
      explicit_conflict_skip [of ex_libs ex_bar ex_tool ex_self "''/usr/bin/tool''" "[]" "[]"]
      s1 s2 ne
    by (simp add: g1 g2)
qed




text \<open>
  C5. \<open>try_to_install_all\<close> solves one goal for each package under test, in the order
  of the list, and folds each result into a new DependencySet with \<open>add_package\<close>; the
  flag it returns is true exactly when \<open>overall_problems\<close> of the returned DependencySet
  is empty. With no package under test it returns \<open>True\<close> and a DependencySet whose
  \<open>packages\<close> is empty.
\<close>

theorem try_to_install_all_result:
  "try_to_install_all x self =
     (fst (overall_problems
             (foldl (\<lambda>ds pkg. add_package ds pkg (reponame pkg)
                                 (r_installs (snd (try_to_install x [pkg])))
                                 (r_problems (snd (try_to_install x [pkg]))))
                DependencySet_init (self_packages self))) = {},
      foldl (\<lambda>ds pkg. add_package ds pkg (reponame pkg)
                          (r_installs (snd (try_to_install x [pkg])))
                          (r_problems (snd (try_to_install x [pkg]))))
        DependencySet_init (self_packages self))
   \<and> (fst (try_to_install_all x self) \<longleftrightarrow>
        fst (overall_problems (snd (try_to_install_all x self))) = {})
   \<and> try_to_install_all x (self\<lparr>self_packages := []\<rparr>) = (True, DependencySet_init)
   \<and> fst (packages (snd (try_to_install_all x (self\<lparr>self_packages := []\<rparr>)))) = {}"
proof -
  have r: "record_install x = (\<lambda>ds pkg. add_package ds pkg (reponame pkg)
                                 (r_installs (snd (try_to_install x [pkg])))
                                 (r_problems (snd (try_to_install x [pkg]))))"
    by (intro ext) (simp add: record_install_def)
  show ?thesis
    unfolding r [symmetric]
    by (simp add: try_to_install_all_def install_loop_eq overall_problems_def packages_def
        DependencySet_init_def Let_def)
qed

theorem try_to_install_all_result_witness:
  "fst (try_to_install_all ex_libs ex_self)
   \<and> fst (packages (snd (try_to_install_all ex_libs ex_self))) = {''bar-2.0-1.x86_64''}
   \<and> \<not> fst (try_to_install_all ex_libs (ex_self\<lparr>self_packages := [ex_bar, ex_tool]\<rparr>))
   \<and> fst (overall_problems (snd (try_to_install_all ex_libs (ex_self\<lparr>self_packages := [ex_bar, ex_tool]\<rparr>))))
       = {''nothing provides bar-api needed by tool-1.0-1.x86_64''}"
proof -
  have t1: "try_to_install ex_libs [ex_bar] =
      (True, \<lparr>r_installs = [ex_bar, ex_libfoo], r_upgrades = [], r_erasures = [], r_problems = []\<rparr>)"
    by (simp add: try_to_install_def ex_libs_def ex_run_goal_def)
  have t2: "try_to_install ex_libs [ex_tool] =
     (False, \<lparr>r_installs = [], r_upgrades = [], r_erasures = [],
              r_problems = [''nothing provides bar-api needed by tool-1.0-1.x86_64'']\<rparr>)"
    by (simp add: try_to_install_def ex_libs_def ex_run_goal_def ex_tool_def ex_bar_def)
  have n: "nevra ex_bar = ''bar-2.0-1.x86_64''" by (simp add: ex_bar_def)
  show ?thesis
    using try_to_install_all_result [of ex_libs ex_self]
      try_to_install_all_result [of ex_libs "ex_self\<lparr>self_packages := [ex_bar, ex_tool]\<rparr>"]
    by (simp add: t1 t2 n ex_self_def overall_problems_def packages_def add_package_overall
        add_package_packagedeps DependencySet_init_def)
qed

text \<open>
  C6. For the packages under test in turn, \<open>find_upgrade_problems\<close> reports one string
  "P would be upgraded by N from repo R" for each package \<open>N\<close> that the resolver returns
  for the name and architecture of \<open>P\<close> and a greater EVR, then one string
  "P would be obsoleted by O from repo R" for each package \<open>O\<close> that the resolver returns
  as obsoleting \<open>P\<close>. Every match is reported and nothing else is.
\<close>

theorem find_upgrade_problems_reports:
  "find_upgrade_problems x self =
     concat (map (\<lambda>P.
        map (\<lambda>newer. nevra P @ '' would be upgraded by '' @ nevra newer
                       @ '' from repo '' @ reponame newer)
            (query x [Name (name P), Arch (arch P), Evr_gt (evr P)])
        @ map (\<lambda>obsoleting. nevra P @ '' would be obsoleted by '' @ nevra obsoleting
                       @ '' from repo '' @ reponame obsoleting)
            (query x [Obsoletes [P]]))
       (self_packages self))"
proof -
  have u: "upgraded_msg = (\<lambda>P newer. nevra P @ '' would be upgraded by '' @ nevra newer
                       @ '' from repo '' @ reponame newer)"
    by (intro ext) (simp add: upgraded_msg_def)
  have o: "obsoleted_msg = (\<lambda>P obsoleting. nevra P @ '' would be obsoleted by '' @ nevra obsoleting
                       @ '' from repo '' @ reponame obsoleting)"
    by (intro ext) (simp add: obsoleted_msg_def)
  show ?thesis
    by (simp add: find_upgrade_problems_def upgrade_loop_eq u o)
qed

theorem find_upgrade_problems_reports_witness:
  "find_upgrade_problems ex_upgrade_libs ex_self =
     [''bar-2.0-1.x86_64 would be upgraded by bar-3.0-1.x86_64 from repo updates'',
      ''bar-2.0-1.x86_64 would be obsoleted by tool-1.0-1.x86_64 from repo base'']"
proof -
  have q1: "query ex_upgrade_libs [Name (name ex_bar), Arch (arch ex_bar), Evr_gt (evr ex_bar)] = [ex_bar_new]"
    by (simp add: ex_upgrade_libs_def ex_bar_def)
  have q2: "query ex_upgrade_libs [Obsoletes [ex_bar]] = [ex_tool]"
    by (simp add: ex_upgrade_libs_def)
  have n: "nevra ex_bar = ''bar-2.0-1.x86_64''" "nevra ex_bar_new = ''bar-3.0-1.x86_64''"
    "nevra ex_tool = ''tool-1.0-1.x86_64''" "reponame ex_bar_new = ''updates''" "reponame ex_tool = ''base''"
    by (simp_all add: ex_bar_def ex_bar_new_def ex_tool_def)
  have s: "self_packages ex_self = [ex_bar]" by (simp add: ex_self_def)
  show ?thesis
    using find_upgrade_problems_reports [of ex_upgrade_libs ex_self]
    by (simp add: s q1 q2 n)
qed

text \<open>
  C10. When the install list of the resolver contains the requested package for every
  package under test whose goal succeeds, the dependency list that \<open>try_to_install_all\<close>
  records for such a package contains the package's own NEVRA.
\<close>

theorem try_to_install_all_records_own_nevra:
  assumes "\<forall>p \<in> set (self_packages self).
             g_run (run_goal x [p]) \<longrightarrow> p \<in> set (g_list_installs (run_goal x [p]))"
  shows "\<forall>p \<in> set (self_packages self).
           g_run (run_goal x [p]) \<longrightarrow>
           nevra p \<in> set (fst (dependencies_for_package (snd (try_to_install_all x self)) (nevra p)))"
proof (intro ballI impI)
  fix p assume p: "p \<in> set (self_packages self)" and ok: "g_run (run_goal x [p])"
  with assms have "p \<in> set (g_list_installs (run_goal x [p]))" by blast
  with p ok have "nevra p \<in> set (dependencies (entry_of
      (foldl (record_install x) DependencySet_init (self_packages self)) (nevra p)))"
    by (rule foldl_record_install_own_nevra)
  then show "nevra p \<in> set (fst (dependencies_for_package (snd (try_to_install_all x self)) (nevra p)))"
    by (simp add: try_to_install_all_def install_loop_eq overall_problems_def Let_def
        dependencies_for_package_fst)
qed

theorem try_to_install_all_records_own_nevra_witness:
  "ex_bar \<in> set (self_packages ex_self)
   \<and> g_run (run_goal ex_libs [ex_bar])
   \<and> ex_bar \<in> set (g_list_installs (run_goal ex_libs [ex_bar]))
   \<and> nevra ex_bar
       \<in> set (fst (dependencies_for_package (snd (try_to_install_all ex_libs ex_self)) (nevra ex_bar)))"
proof -
  have s: "self_packages ex_self = [ex_bar]" by (simp add: ex_self_def)
  have g: "g_run (run_goal ex_libs [ex_bar])"
    "ex_bar \<in> set (g_list_installs (run_goal ex_libs [ex_bar]))"
    by (simp_all add: ex_libs_def ex_run_goal_def)
  have h: "\<forall>p \<in> set (self_packages ex_self).
             g_run (run_goal ex_libs [p]) \<longrightarrow> p \<in> set (g_list_installs (run_goal ex_libs [p]))"
    using g by (simp add: s)
  show ?thesis
    using try_to_install_all_records_own_nevra [OF h] g
    by (simp add: s)
qed

end
